theory Spec2Isabelle
  imports Complex_Main "HOL-Library.Char_ord" "HOL-Library.List_Lexorder"
begin

section \<open>Exceptions of the Python run time\<close>

text \<open>
  The scripts \<^verbatim>\<open>usaspending_doi.py\<close> and \<^verbatim>\<open>usaspending_ees.py\<close> raise nothing themselves;
  every exception comes from a library call. An exception that the source does not catch
  ends the function that met it, and is a value of this type in the model.
\<close>

datatype py_error = ValueError | OverflowError | KeyError | TypeError

section \<open>Calendar dates\<close>

text \<open>
  \<^verbatim>\<open>get_week_ranges\<close> parses both arguments with \<^verbatim>\<open>datetime.strptime(_, '%Y-%m-%d')\<close>, so every
  \<^verbatim>\<open>datetime\<close> it handles is a midnight. Such a value is represented by its proleptic
  Gregorian ordinal (\<^verbatim>\<open>toordinal()\<close>: 0001-01-01 is day 1), the representation on which
  CPython itself computes \<^verbatim>\<open>datetime + timedelta\<close>. The conversions between year, month, day
  and the ordinal follow CPython's \<^verbatim>\<open>_ymd2ord\<close> and \<^verbatim>\<open>_ord2ymd\<close>.
\<close>

definition is_leap :: "int \<Rightarrow> bool" where
  "is_leap year = (year mod 4 = 0 \<and> (year mod 100 \<noteq> 0 \<or> year mod 400 = 0))"

definition DAYS_IN_MONTH :: "int list" where
  "DAYS_IN_MONTH = [31, 28, 31, 30, 31, 30, 31, 31, 30, 31, 30, 31]"

definition DAYS_BEFORE_MONTH :: "int list" where
  "DAYS_BEFORE_MONTH = [0, 31, 59, 90, 120, 151, 181, 212, 243, 273, 304, 334]"

text \<open>Both tables are read at a month between 1 and 12 only.\<close>

definition days_in_month :: "int \<Rightarrow> int \<Rightarrow> int" where
  "days_in_month year month =
     (if month = 2 \<and> is_leap year then 29 else DAYS_IN_MONTH ! nat (month - 1))"

definition days_before_year :: "int \<Rightarrow> int" where
  "days_before_year year =
     (let y = year - 1 in y * 365 + y div 4 - y div 100 + y div 400)"

definition days_before_month :: "int \<Rightarrow> int \<Rightarrow> int" where
  "days_before_month year month =
     DAYS_BEFORE_MONTH ! nat (month - 1) + (if month > 2 \<and> is_leap year then 1 else 0)"

definition ymd2ord :: "int \<Rightarrow> int \<Rightarrow> int \<Rightarrow> int" where
  "ymd2ord year month day = days_before_year year + days_before_month year month + day"

definition DI400Y :: int where "DI400Y = 146097"
definition DI100Y :: int where "DI100Y = 36524"
definition DI4Y :: int where "DI4Y = 1461"

definition ord2ymd :: "int \<Rightarrow> int \<times> int \<times> int" where
  "ord2ymd n0 =
     (let n = n0 - 1;
          n400 = n div DI400Y; n = n mod DI400Y;
          year = n400 * 400 + 1;
          n100 = n div DI100Y; n = n mod DI100Y;
          n4 = n div DI4Y; n = n mod DI4Y;
          n1 = n div 365; n = n mod 365;
          year = year + n100 * 100 + n4 * 4 + n1
      in if n1 = 4 \<or> n100 = 4 then (year - 1, 12, 31)
         else
           let leapyear = (n1 = 3 \<and> (n4 \<noteq> 24 \<or> n100 = 3));
               month = (n + 50) div 32;
               preceding = DAYS_BEFORE_MONTH ! nat (month - 1)
                             + (if month > 2 \<and> leapyear then 1 else 0)
           in if preceding > n
              then let month = month - 1;
                       preceding = preceding
                         - (DAYS_IN_MONTH ! nat (month - 1)
                              + (if month = 2 \<and> leapyear then 1 else 0))
                   in (year, month, n - preceding + 1)
              else (year, month, n - preceding + 1))"

definition MINYEAR :: int where "MINYEAR = 1"
definition MAXYEAR :: int where "MAXYEAR = 9999"

text \<open>\<^verbatim>\<open>date.max.toordinal()\<close>, the ordinal of 9999-12-31.\<close>

definition MAXORDINAL :: int where "MAXORDINAL = 3652059"

subsection \<open>Parsing and printing with the format \<^verbatim>\<open>%Y-%m-%d\<close>\<close>

definition is_digit :: "char \<Rightarrow> bool" where
  "is_digit c = (c \<in> set ''0123456789'')"

text \<open>The value of a decimal digit: its code point less that of \<^verbatim>\<open>0\<close>.\<close>

definition digit_val :: "char \<Rightarrow> int" where
  "digit_val c = int (of_char c) - 48"

text \<open>
  \<^verbatim>\<open>strptime\<close> turns the format into a regular expression and matches it at the start of
  the string; text left over after the match is an error. The directive \<^verbatim>\<open>%Y\<close> is four
  digits, \<^verbatim>\<open>%m\<close> is \<^verbatim>\<open>1[0-2]|0[1-9]|[1-9]\<close> and \<^verbatim>\<open>%d\<close> is
  \<^verbatim>\<open>3[01]|[12]\d|0[1-9]|[1-9]| [1-9]\<close>, alternatives tried from the left.
\<close>

fun month_token :: "string \<Rightarrow> (int \<times> string) option" where
  "month_token (a # b # c # rest) =
     (if a = CHR ''1'' \<and> b \<in> set ''012'' \<and> c = CHR ''-'' then Some (10 + digit_val b, rest)
      else if a = CHR ''0'' \<and> b \<in> set ''123456789'' \<and> c = CHR ''-'' then Some (digit_val b, rest)
      else if a \<in> set ''123456789'' \<and> b = CHR ''-'' then Some (digit_val a, c # rest)
      else None)"
| "month_token [a, b] =
     (if a \<in> set ''123456789'' \<and> b = CHR ''-'' then Some (digit_val a, []) else None)"
| "month_token _ = None"

fun day_token :: "string \<Rightarrow> int option" where
  "day_token [a, b] =
     (if a = CHR ''3'' \<and> b \<in> set ''01'' then Some (30 + digit_val b)
      else if a \<in> set ''12'' \<and> is_digit b then Some (10 * digit_val a + digit_val b)
      else if a = CHR ''0'' \<and> b \<in> set ''123456789'' then Some (digit_val b)
      else if a = CHR '' '' \<and> b \<in> set ''123456789'' then Some (digit_val b)
      else None)"
| "day_token [a] = (if a \<in> set ''123456789'' then Some (digit_val a) else None)"
| "day_token _ = None"

fun parse_ymd :: "string \<Rightarrow> (int \<times> int \<times> int) option" where
  "parse_ymd (y1 # y2 # y3 # y4 # dash # rest) =
     (if is_digit y1 \<and> is_digit y2 \<and> is_digit y3 \<and> is_digit y4 \<and> dash = CHR ''-''
      then (case month_token rest of
              None \<Rightarrow> None
            | Some (month, rest') \<Rightarrow>
                (case day_token rest' of
                   None \<Rightarrow> None
                 | Some day \<Rightarrow>
                     Some (1000 * digit_val y1 + 100 * digit_val y2 + 10 * digit_val y3
                             + digit_val y4, month, day)))
      else None)"
| "parse_ymd _ = None"

text \<open>
  A string that does not match, or that names a day that does not exist (year 0000,
  February 30th), raises \<^verbatim>\<open>ValueError\<close>.
\<close>

definition strptime :: "string \<Rightarrow> py_error + int" where
  "strptime s =
     (case parse_ymd s of
        None \<Rightarrow> Inl ValueError
      | Some (year, month, day) \<Rightarrow>
          if MINYEAR \<le> year \<and> year \<le> MAXYEAR \<and> 1 \<le> month \<and> month \<le> 12
             \<and> 1 \<le> day \<and> day \<le> days_in_month year month
          then Inr (ymd2ord year month day)
          else Inl ValueError)"

definition digit_char :: "int \<Rightarrow> char" where
  "digit_char d = ''0123456789'' ! nat (d mod 10)"

definition pad2 :: "int \<Rightarrow> string" where
  "pad2 n = [digit_char (n div 10), digit_char n]"

definition pad4 :: "int \<Rightarrow> string" where
  "pad4 n = [digit_char (n div 1000), digit_char (n div 100), digit_char (n div 10), digit_char n]"

text \<open>
  \<^verbatim>\<open>strftime('%Y-%m-%d')\<close>. The year is printed on four digits here; for a year below
  1000 the C library decides the padding, and no result below depends on it.
\<close>

definition strftime :: "int \<Rightarrow> string" where
  "strftime d = (case ord2ymd d of (year, month, day) \<Rightarrow>
     pad4 year @ ''-'' @ pad2 month @ ''-'' @ pad2 day)"

text \<open>
  \<^verbatim>\<open>datetime + timedelta(days=k)\<close>: the sum of the ordinals, and \<^verbatim>\<open>OverflowError\<close> when it
  leaves the range of \<^verbatim>\<open>datetime\<close>.
\<close>

definition add_days :: "int \<Rightarrow> int \<Rightarrow> py_error + int" where
  "add_days d k =
     (let n = d + k in if 0 < n \<and> n \<le> MAXORDINAL then Inr n else Inl OverflowError)"

section \<open>The date range splitter\<close>

text \<open>
  \<^verbatim>\<open>get_week_ranges\<close> is a generator. Its value here is the list of the pairs it yields,
  in order, and the exception that ends it, if any. The \<^verbatim>\<open>while current < end\<close> loop is
  \<open>week_loop\<close>; \<^verbatim>\<open>current + timedelta(days=6)\<close> is computed before \<^verbatim>\<open>min\<close> sees it, so
  it can overflow although \<^verbatim>\<open>end\<close> is in range.
\<close>

function week_loop :: "int \<Rightarrow> int \<Rightarrow> (string \<times> string) list \<times> py_error option" where
  "week_loop current endd =
     (if current < endd then
        (case add_days current 6 of
           Inl e \<Rightarrow> ([], Some e)
         | Inr c6 \<Rightarrow>
             (let week_end = min c6 endd in
              (case add_days week_end 1 of
                 Inl e \<Rightarrow> ([(strftime current, strftime week_end)], Some e)
               | Inr nxt \<Rightarrow>
                   (case week_loop nxt endd of
                      (ys, e) \<Rightarrow> ((strftime current, strftime week_end) # ys, e)))))
      else ([], None))"
  by pat_completeness auto
termination
proof (relation "measure (\<lambda>(current, endd). nat (endd - current))")
  show "wf (measure (\<lambda>(current, endd). nat (endd - current)))" by simp
next
  fix current endd :: int and c6 week_end nxt
  assume "current < endd" "add_days current 6 = Inr c6" "week_end = min c6 endd"
    "add_days week_end 1 = Inr nxt"
  then have "current < nxt"
    by (auto simp: add_days_def Let_def min_def split: if_splits)
  with \<open>current < endd\<close>
  show "((nxt, endd), (current, endd)) \<in> measure (\<lambda>(current, endd). nat (endd - current))"
    by simp
qed

definition get_week_ranges :: "string \<Rightarrow> string \<Rightarrow> (string \<times> string) list \<times> py_error option" where
  "get_week_ranges start_date end_date =
     (case strptime start_date of
        Inl e \<Rightarrow> ([], Some e)
      | Inr start \<Rightarrow>
          (case strptime end_date of
             Inl e \<Rightarrow> ([], Some e)
           | Inr endd \<Rightarrow> week_loop start endd))"

section \<open>The paginated fetcher\<close>

text \<open>
  The body of a response with status 200, as \<^verbatim>\<open>response.json()\<close> and the subscript
  \<^verbatim>\<open>data['results']\<close> see it: not JSON at all, a JSON object without the key
  \<^verbatim>\<open>results\<close>, or a JSON object whose \<^verbatim>\<open>results\<close> is a list of records.
  A request either raises \<^verbatim>\<open>requests.exceptions.RequestException\<close> or returns a status
  code and a body.
\<close>

datatype 'r body = NotJson | NoResults | Results "'r list"

datatype 'r response = RequestException | Response int "'r body"

text \<open>The JSON document that is posted. \<^verbatim>\<open>fields\<close> is \<open>field_names\<close> here.\<close>

record payload =
  filters_award_type_codes :: "string list"
  filters_time_period :: "(string \<times> string) list"
  filters_agencies :: "(string \<times> string \<times> string) list"
  filters_object_class :: "string list option"
  field_names :: "string list"
  page :: nat
  limit :: nat
  sort_field :: string
  sort_order :: string

definition award_history_payload :: "string \<Rightarrow> string \<Rightarrow> payload" where
  "award_history_payload start_date end_date =
     \<lparr>filters_award_type_codes =
        [''A'', ''B'', ''C'', ''D'', ''02'', ''03'', ''04'', ''05'', ''06'', ''10'',
         ''07'', ''08'', ''09'', ''11''],
      filters_time_period = [(start_date, end_date)],
      filters_agencies = [(''awarding'', ''toptier'', ''Department of the Interior'')],
      filters_object_class = None,
      field_names =
        [''Award ID'', ''Mod'', ''Recipient Name'', ''Action Date'', ''Transaction Amount'',
         ''Awarding Agency'', ''Awarding Sub Agency'', ''Award Type''],
      page = 1,
      limit = 100,
      sort_field = ''Action Date'',
      sort_order = ''desc''\<rparr>"

definition personnel_spending_payload :: "string \<Rightarrow> string \<Rightarrow> payload" where
  "personnel_spending_payload start_date end_date =
     \<lparr>filters_award_type_codes =
        [''A'', ''B'', ''C'', ''D'', ''02'', ''03'', ''04'', ''05'', ''06'', ''10'',
         ''07'', ''08'', ''09'', ''11''],
      filters_time_period = [(start_date, end_date)],
      filters_agencies = [(''awarding'', ''toptier'', ''Department of the Interior'')],
      filters_object_class = Some [''10''],
      field_names =
        [''Action Date'', ''Transaction Amount'', ''Award ID'', ''Recipient Name'',
         ''Awarding Agency'', ''Awarding Sub Agency'', ''Award Type''],
      page = 1,
      limit = 100,
      sort_field = ''Action Date'',
      sort_order = ''desc''\<rparr>"

text \<open>
  The \<^verbatim>\<open>while True\<close> loop of \<^verbatim>\<open>fetch_award_history\<close>. The upstream is a function of the
  posted payload: the page number grows at every turn, so no payload is posted twice and
  an upstream with a state of its own answers one run as such a function does. The loop
  ends only when the upstream lets it, hence \<open>None\<close> for a run that goes on for ever.
  Next to the result stands the list of the page numbers posted, in order.

  \<^verbatim>\<open>response.json()\<close> on a body that is not JSON raises
  \<^verbatim>\<open>requests.exceptions.JSONDecodeError\<close>, a \<^verbatim>\<open>RequestException\<close>, which the
  \<^verbatim>\<open>except\<close> clause catches; \<^verbatim>\<open>data['results']\<close> on an object without that key raises
  \<^verbatim>\<open>KeyError\<close>, which it does not.
\<close>

partial_function (option) fetch_award_history_loop ::
  "(payload \<Rightarrow> 'r response) \<Rightarrow> payload \<Rightarrow> nat \<Rightarrow> 'r list \<Rightarrow> nat list
     \<Rightarrow> ((py_error + 'r list) \<times> nat list) option" where
  "fetch_award_history_loop upstream payload pg all_results requested =
     (let payload = payload\<lparr>page := pg\<rparr>; requested = requested @ [pg] in
      case upstream payload of
        RequestException \<Rightarrow> Some (Inr all_results, requested)
      | Response status_code body \<Rightarrow>
          if status_code \<noteq> 200 then Some (Inr all_results, requested)
          else (case body of
                  NotJson \<Rightarrow> Some (Inr all_results, requested)
                | NoResults \<Rightarrow> Some (Inl KeyError, requested)
                | Results results \<Rightarrow>
                    if results = [] then Some (Inr all_results, requested)
                    else let all_results = all_results @ results in
                         if length results < limit payload
                         then Some (Inr all_results, requested)
                         else fetch_award_history_loop upstream payload (pg + 1)
                                all_results requested))"

declare fetch_award_history_loop.simps [code]

definition fetch_award_history ::
  "(payload \<Rightarrow> 'r response) \<Rightarrow> string \<Rightarrow> string
     \<Rightarrow> ((py_error + 'r list) \<times> nat list) option" where
  "fetch_award_history upstream start_date end_date =
     fetch_award_history_loop upstream (award_history_payload start_date end_date) 1 [] []"

text \<open>
  \<^verbatim>\<open>fetch_personnel_spending\<close> reads the list with \<^verbatim>\<open>data.get('results')\<close>, so a missing key
  ends the loop like an empty list. Its counter \<^verbatim>\<open>total_entries\<close> feeds the progress lines
  only and is left out, as are the pauses.
\<close>

partial_function (option) fetch_personnel_spending_loop ::
  "(payload \<Rightarrow> 'r response) \<Rightarrow> payload \<Rightarrow> nat \<Rightarrow> 'r list \<Rightarrow> nat list
     \<Rightarrow> ((py_error + 'r list) \<times> nat list) option" where
  "fetch_personnel_spending_loop upstream payload pg all_results requested =
     (let payload = payload\<lparr>page := pg\<rparr>; requested = requested @ [pg] in
      case upstream payload of
        RequestException \<Rightarrow> Some (Inr all_results, requested)
      | Response status_code body \<Rightarrow>
          if status_code \<noteq> 200 then Some (Inr all_results, requested)
          else (case body of
                  NotJson \<Rightarrow> Some (Inr all_results, requested)
                | NoResults \<Rightarrow> Some (Inr all_results, requested)
                | Results results \<Rightarrow>
                    if results = [] then Some (Inr all_results, requested)
                    else let all_results = all_results @ results in
                         if length results < limit payload
                         then Some (Inr all_results, requested)
                         else fetch_personnel_spending_loop upstream payload (pg + 1)
                                all_results requested))"

declare fetch_personnel_spending_loop.simps [code]

definition fetch_personnel_spending ::
  "(payload \<Rightarrow> 'r response) \<Rightarrow> string \<Rightarrow> string
     \<Rightarrow> ((py_error + 'r list) \<times> nat list) option" where
  "fetch_personnel_spending upstream start_date end_date =
     fetch_personnel_spending_loop upstream
       (personnel_spending_payload start_date end_date) 1 [] []"

section \<open>Tables\<close>

text \<open>
  A value of a record or of a table cell: JSON \<^verbatim>\<open>null\<close> and the missing value of pandas
  (\<open>NaN\<close>), a string, a number, or a parsed date. Numbers are real numbers: the rounding
  of \<^verbatim>\<open>float64\<close> is not modelled, and the sums evaluated below have one term each. A record
  is a JSON object, its keys in the order of the document.
\<close>

datatype cell = NaN | Str string | Num real | Timestamp int

type_synonym json_record = "(string \<times> cell) list"

text \<open>
  A \<^verbatim>\<open>DataFrame\<close> with the default index: the number of rows and the columns, each a
  label and its values, in order.
\<close>

record dataframe =
  index_len :: nat
  cols :: "(string \<times> cell list) list"

text \<open>\<^verbatim>\<open>pd.DataFrame()\<close>\<close>

definition empty_frame :: dataframe where
  "empty_frame = \<lparr>index_len = 0, cols = []\<rparr>"

definition df_columns :: "dataframe \<Rightarrow> string list" where
  "df_columns df = map fst (cols df)"

text \<open>\<^verbatim>\<open>df.empty\<close>: some axis has length 0.\<close>

definition df_empty :: "dataframe \<Rightarrow> bool" where
  "df_empty df = (index_len df = 0 \<or> cols df = [])"

fun first_seen :: "'a list \<Rightarrow> 'a list \<Rightarrow> 'a list" where
  "first_seen seen [] = seen"
| "first_seen seen (x # xs) = first_seen (if x \<in> set seen then seen else seen @ [x]) xs"

text \<open>
  \<^verbatim>\<open>pd.DataFrame(data)\<close> for a list of records: one row per record, the columns are the
  keys in the order in which they first appear, and a record without a key has \<open>NaN\<close>
  there.
\<close>

definition DataFrame :: "json_record list \<Rightarrow> dataframe" where
  "DataFrame data =
     (let columns = first_seen [] (concat (map (map fst) data)) in
      \<lparr>index_len = length data,
       cols = map (\<lambda>c. (c, map (\<lambda>r. case map_of r c of None \<Rightarrow> NaN | Some v \<Rightarrow> v) data))
                columns\<rparr>)"

text \<open>\<^verbatim>\<open>df[c]\<close>, read and assigned.\<close>

definition get_col :: "dataframe \<Rightarrow> string \<Rightarrow> py_error + cell list" where
  "get_col df c = (case map_of (cols df) c of None \<Rightarrow> Inl KeyError | Some v \<Rightarrow> Inr v)"

definition set_col :: "dataframe \<Rightarrow> string \<Rightarrow> cell list \<Rightarrow> dataframe" where
  "set_col df c vals =
     (if c \<in> set (df_columns df)
      then df\<lparr>cols := map (\<lambda>(k, v). if k = c then (k, vals) else (k, v)) (cols df)\<rparr>
      else df\<lparr>cols := cols df @ [(c, vals)]\<rparr>)"

text \<open>\<^verbatim>\<open>pd.concat(frames, ignore_index=True)\<close> for a list of frames that is not empty.\<close>

definition concat_frames :: "dataframe list \<Rightarrow> dataframe" where
  "concat_frames dfs =
     (let columns = first_seen [] (concat (map df_columns dfs)) in
      \<lparr>index_len = sum_list (map index_len dfs),
       cols = map (\<lambda>c. (c, concat (map (\<lambda>df. case map_of (cols df) c of
                                                None \<Rightarrow> replicate (index_len df) NaN
                                              | Some v \<Rightarrow> v) dfs)))
                columns\<rparr>)"

text \<open>
  The conversions of pandas are parameters of the model: \<^verbatim>\<open>pd.to_datetime\<close> and
  \<^verbatim>\<open>pd.to_numeric\<close> on a column, each returning the converted column or raising, and the
  text of \<^verbatim>\<open>format(x, ',.2f')\<close>.
\<close>

record pandas =
  to_datetime :: "cell list \<Rightarrow> py_error + cell list"
  to_numeric :: "cell list \<Rightarrow> py_error + cell list"
  format_2f :: "real \<Rightarrow> string"

section \<open>The result aggregator\<close>

text \<open>The function given to \<^verbatim>\<open>apply\<close>: \<^verbatim>\<open>f"${x:,.2f}" if pd.notnull(x) else "$0.00"\<close>.\<close>

fun amount_label :: "(real \<Rightarrow> string) \<Rightarrow> cell \<Rightarrow> py_error + cell" where
  "amount_label fmt NaN = Inr (Str ''$0.00'')"
| "amount_label fmt (Num x) = Inr (Str (''$'' @ fmt x))"
| "amount_label fmt (Str s) = Inl ValueError"
| "amount_label fmt (Timestamp t) = Inl TypeError"

fun apply_series :: "('a \<Rightarrow> py_error + 'b) \<Rightarrow> 'a list \<Rightarrow> py_error + 'b list" where
  "apply_series f [] = Inr []"
| "apply_series f (x # xs) =
     (case f x of
        Inl e \<Rightarrow> Inl e
      | Inr y \<Rightarrow> (case apply_series f xs of Inl e \<Rightarrow> Inl e | Inr ys \<Rightarrow> Inr (y # ys)))"

definition convert_action_date :: "pandas \<Rightarrow> dataframe \<Rightarrow> py_error + dataframe" where
  "convert_action_date lib df =
     (if ''Action Date'' \<in> set (df_columns df) then
        (case get_col df ''Action Date'' of
           Inl e \<Rightarrow> Inl e
         | Inr dates \<Rightarrow>
             (case to_datetime lib dates of
                Inl e \<Rightarrow> Inl e
              | Inr parsed \<Rightarrow> Inr (set_col df ''Action Date'' parsed)))
      else Inr df)"

definition convert_amount :: "pandas \<Rightarrow> string \<Rightarrow> dataframe \<Rightarrow> py_error + dataframe" where
  "convert_amount lib label df =
     (if ''Transaction Amount'' \<in> set (df_columns df) then
        (case get_col df ''Transaction Amount'' of
           Inl e \<Rightarrow> Inl e
         | Inr amounts \<Rightarrow>
             (case to_numeric lib amounts of
                Inl e \<Rightarrow> Inl e
              | Inr numbers \<Rightarrow>
                  (let df = set_col df ''Transaction Amount'' numbers in
                   case apply_series (amount_label (format_2f lib)) numbers of
                     Inl e \<Rightarrow> Inl e
                   | Inr labels \<Rightarrow> Inr (set_col df label labels))))
      else Inr df)"

text \<open>\<^verbatim>\<open>process_results\<close> of \<^verbatim>\<open>usaspending_doi.py\<close>; the derived column is \<^verbatim>\<open>Amount\<close>.\<close>

definition process_results :: "pandas \<Rightarrow> json_record list \<Rightarrow> py_error + dataframe" where
  "process_results lib data =
     (if data = [] then Inr empty_frame
      else
        (case convert_action_date lib (DataFrame data) of
           Inl e \<Rightarrow> Inl e
         | Inr df \<Rightarrow> convert_amount lib ''Amount'' df))"

text \<open>
  \<^verbatim>\<open>process_results\<close> of \<^verbatim>\<open>usaspending_ees.py\<close>; the derived column is
  \<^verbatim>\<open>Formatted Amount\<close>.
\<close>

definition process_results_ees :: "pandas \<Rightarrow> json_record list \<Rightarrow> py_error + dataframe" where
  "process_results_ees lib data =
     (if data = [] then Inr empty_frame
      else
        (case convert_action_date lib (DataFrame data) of
           Inl e \<Rightarrow> Inl e
         | Inr df \<Rightarrow> convert_amount lib ''Formatted Amount'' df))"

section \<open>The output writer\<close>

fun str_nat :: "nat \<Rightarrow> string" where
  "str_nat n =
     (if n < 10 then [digit_char (int n)]
      else str_nat (n div 10) @ [digit_char (int n)])"

declare str_nat.simps [simp del]

definition output_dir :: string where
  "output_dir = ''output/fy2024''"

text \<open>\<^verbatim>\<open>os.path.join\<close> of a directory and a file name.\<close>

definition path_join :: "string \<Rightarrow> string \<Rightarrow> string" where
  "path_join dir name = dir @ ''/'' @ name"

definition week_filename :: "nat \<Rightarrow> string" where
  "week_filename week_num =
     path_join output_dir (''doi_awards_week_'' @ str_nat week_num @ ''.csv'')"

definition total_filename :: string where
  "total_filename = path_join output_dir ''doi_awards_fy2024_complete.csv''"

text \<open>
  The state of a run of \<^verbatim>\<open>main\<close> in \<^verbatim>\<open>usaspending_doi.py\<close> is the list of the files written by
  \<^verbatim>\<open>to_csv\<close>, each a name and the table it holds, in the order of the writes. The body of
  the \<^verbatim>\<open>for\<close> loop over \<^verbatim>\<open>enumerate(get_week_ranges(...), 1)\<close> is \<open>main_loop\<close>; an exception
  that \<^verbatim>\<open>main\<close> does not catch ends the run and is returned with the files written before
  it. Writing is taken to succeed.
\<close>

type_synonym files = "(string \<times> dataframe) list"

fun main_loop ::
  "(payload \<Rightarrow> json_record response) \<Rightarrow> pandas \<Rightarrow> (nat \<times> string \<times> string) list
     \<Rightarrow> dataframe list \<Rightarrow> files \<Rightarrow> (py_error option \<times> dataframe list \<times> files) option" where
  "main_loop upstream lib [] all_data written = Some (None, all_data, written)"
| "main_loop upstream lib ((week_num, week_start, week_end) # rest) all_data written =
     (case fetch_award_history upstream week_start week_end of
        None \<Rightarrow> None
      | Some (Inl e, requested) \<Rightarrow> Some (Some e, all_data, written)
      | Some (Inr data, requested) \<Rightarrow>
          if data \<noteq> [] then
            (case process_results lib data of
               Inl e \<Rightarrow> Some (Some e, all_data, written)
             | Inr df \<Rightarrow>
                 if \<not> df_empty df
                 then main_loop upstream lib rest (all_data @ [df])
                        (written @ [(week_filename week_num, df)])
                 else main_loop upstream lib rest all_data written)
          else main_loop upstream lib rest all_data written)"

text \<open>
  \<^verbatim>\<open>main\<close> up to the write of the combined file. The generator is run twice, first to
  count the chunks; an exception of the generator ends the run there. The summary printed
  after the last write changes no file; its aggregation by category is
  \<open>category_summary\<close> below.
\<close>

definition main ::
  "(payload \<Rightarrow> json_record response) \<Rightarrow> pandas \<Rightarrow> (py_error option \<times> files) option" where
  "main upstream lib =
     (let start_date = ''2023-10-01''; end_date = ''2024-09-30'' in
      case get_week_ranges start_date end_date of
        (ranges, Some e) \<Rightarrow> Some (Some e, [])
      | (ranges, None) \<Rightarrow>
          (case main_loop upstream lib (enumerate 1 ranges) [] [] of
             None \<Rightarrow> None
           | Some (Some e, all_data, written) \<Rightarrow> Some (Some e, written)
           | Some (None, all_data, written) \<Rightarrow>
               if all_data \<noteq> []
               then Some (None, written @ [(total_filename, concat_frames all_data)])
               else Some (None, written)))"

section \<open>Aggregation by award category\<close>

definition award_type_map :: "(string \<times> string) list" where
  "award_type_map =
     [(''A'', ''Contracts''), (''B'', ''Contracts''), (''C'', ''Contracts''),
      (''D'', ''Contracts''),
      (''02'', ''Grants''), (''03'', ''Grants''), (''04'', ''Grants''), (''05'', ''Grants''),
      (''06'', ''Direct Payments''), (''10'', ''Direct Payments''),
      (''07'', ''Loans''), (''08'', ''Loans''),
      (''09'', ''Other''), (''11'', ''Other'')]"

definition award_categories :: "string list" where
  "award_categories = [''Contracts'', ''Grants'', ''Direct Payments'', ''Loans'', ''Other'']"

text \<open>\<^verbatim>\<open>Series.map\<close> with a dictionary: a value that is not a key becomes \<open>NaN\<close>.\<close>

fun series_map :: "(string \<times> string) list \<Rightarrow> cell \<Rightarrow> cell" where
  "series_map table (Str s) = (case map_of table s of None \<Rightarrow> NaN | Some v \<Rightarrow> Str v)"
| "series_map table c = NaN"

fun is_number :: "cell \<Rightarrow> bool" where
  "is_number (Num x) = True"
| "is_number NaN = True"
| "is_number c = False"

text \<open>The numbers of the rows whose key is \<open>key\<close>; a missing number is skipped.\<close>

definition group_rows :: "string \<Rightarrow> cell list \<Rightarrow> cell list \<Rightarrow> real list" where
  "group_rows key keys vals =
     concat (map (\<lambda>(k, v). if k = Str key then (case v of Num x \<Rightarrow> [x] | _ \<Rightarrow> []) else [])
               (zip keys vals))"

text \<open>
  \<^verbatim>\<open>groupby(keys)[vals].agg(['sum', 'count'])\<close>: the rows with a missing key are dropped,
  the groups come in the order of their keys, \<^verbatim>\<open>sum\<close> adds the numbers of a group and
  \<^verbatim>\<open>count\<close> counts them. A column of amounts that holds anything but numbers has not been
  through \<^verbatim>\<open>to_numeric\<close> and is refused here.
\<close>

definition groupby_sum_count ::
  "cell list \<Rightarrow> cell list \<Rightarrow> py_error + (string \<times> real \<times> nat) list" where
  "groupby_sum_count keys vals =
     (if list_all is_number vals
      then Inr (map (\<lambda>key. (key, sum_list (group_rows key keys vals),
                                 length (group_rows key keys vals)))
                  (sort (remdups (concat (map (\<lambda>k. case k of Str s \<Rightarrow> [s] | _ \<Rightarrow> []) keys)))))
      else Inl TypeError)"

text \<open>Lines 169 to 177 of \<^verbatim>\<open>main\<close>: the rows (category, sum, count) of \<^verbatim>\<open>category_summary\<close>.\<close>

definition category_summary :: "dataframe \<Rightarrow> py_error + (string \<times> real \<times> nat) list" where
  "category_summary final_df =
     (case get_col final_df ''Award Type'' of
        Inl e \<Rightarrow> Inl e
      | Inr types \<Rightarrow>
          (let final_df = set_col final_df ''Award Category''
                            (map (series_map award_type_map) types) in
           case get_col final_df ''Award Category'' of
             Inl e \<Rightarrow> Inl e
           | Inr categories \<Rightarrow>
               (case get_col final_df ''Transaction Amount'' of
                  Inl e \<Rightarrow> Inl e
                | Inr amounts \<Rightarrow> groupby_sum_count categories amounts)))"

section \<open>Chunks and their files\<close>

text \<open>
  The chunks of the fiscal year 2024 as the loop of \<^verbatim>\<open>main\<close> numbers them, from 1. A chunk
  has a table when its fetch returns, as a value, at least one record that holds at least
  one field: then the table built from the records has a row and a column.
\<close>

definition fy2024_chunks :: "(nat \<times> string \<times> string) list" where
  "fy2024_chunks = enumerate 1 (fst (get_week_ranges ''2023-10-01'' ''2024-09-30''))"

definition chunk_has_table ::
  "(payload \<Rightarrow> json_record response) \<Rightarrow> nat \<times> string \<times> string \<Rightarrow> bool" where
  "chunk_has_table upstream chunk =
     (case chunk of (week_num, week_start, week_end) \<Rightarrow>
        (case fetch_award_history upstream week_start week_end of
           Some (Inr data, requested) \<Rightarrow> list_ex (\<lambda>r. r \<noteq> []) data
         | _ \<Rightarrow> False))"

definition chunks_with_table ::
  "(payload \<Rightarrow> json_record response) \<Rightarrow> (nat \<times> string \<times> string) list" where
  "chunks_with_table upstream = filter (chunk_has_table upstream) fy2024_chunks"

text \<open>
  The files of chunks among the files written are those whose name is not the name of the
  combined file. A file is the file of a chunk when its name is made from the number of
  the chunk and its table is \<open>process_results\<close> of the records that the fetch of the chunk
  returned.
\<close>

definition week_files :: "files \<Rightarrow> files" where
  "week_files written = filter (\<lambda>file. fst file \<noteq> total_filename) written"

definition is_chunk_file ::
  "(payload \<Rightarrow> json_record response) \<Rightarrow> pandas \<Rightarrow> string \<times> dataframe
     \<Rightarrow> nat \<times> string \<times> string \<Rightarrow> bool" where
  "is_chunk_file upstream lib file chunk =
     (case chunk of (week_num, week_start, week_end) \<Rightarrow>
        (case fetch_award_history upstream week_start week_end of
           Some (Inr data, requested) \<Rightarrow>
             fst file = week_filename week_num \<and> process_results lib data = Inr (snd file)
         | _ \<Rightarrow> False))"

section \<open>Failed requests\<close>

text \<open>
  A request has failed when it raised \<^verbatim>\<open>RequestException\<close> or its status is not 200,
  the test of both fetchers.
\<close>

definition failed :: "'r response \<Rightarrow> bool" where
  "failed r =
     (case r of RequestException \<Rightarrow> True | Response status_code b \<Rightarrow> status_code \<noteq> 200)"

section \<open>Mocked upstreams\<close>

definition sample_record :: json_record where
  "sample_record =
     [(''Award ID'', Str ''140D0423C0001''), (''Action Date'', Str ''2023-10-02''),
      (''Transaction Amount'', Num 100), (''Award Type'', Str ''A'')]"

definition grant_record :: json_record where
  "grant_record =
     [(''Award ID'', Str ''F23AP00001''), (''Action Date'', Str ''2023-10-09''),
      (''Transaction Amount'', Num 50), (''Award Type'', Str ''02'')]"

text \<open>One full page, then a page of three records.\<close>

definition short_feed :: "payload \<Rightarrow> json_record response" where
  "short_feed q =
     (if page q = 1 then Response 200 (Results (replicate 100 sample_record))
      else Response 200 (Results (replicate 3 grant_record)))"

text \<open>One full page, then an internal server error.\<close>

definition broken_feed :: "payload \<Rightarrow> json_record response" where
  "broken_feed q =
     (if page q = 1 then Response 200 (Results (replicate 100 sample_record))
      else Response 500 NotJson)"

definition empty_feed :: "payload \<Rightarrow> json_record response" where
  "empty_feed q = Response 200 (Results [])"

text \<open>Two records in the week from 2023-10-08 to 2023-10-14, none in any other.\<close>

definition second_week_feed :: "payload \<Rightarrow> json_record response" where
  "second_week_feed q =
     (if filters_time_period q = [(''2023-10-08'', ''2023-10-14'')]
      then Response 200 (Results [sample_record, grant_record])
      else Response 200 (Results []))"

text \<open>Conversions that leave a column as it is; the text of an amount plays no part.\<close>

definition plain_pandas :: pandas where
  "plain_pandas = \<lparr>to_datetime = Inr, to_numeric = Inr, format_2f = (\<lambda>x. ''0.00'')\<rparr>"

text \<open>The table of the two records of \<open>second_week_feed\<close> after \<open>process_results\<close>.\<close>

definition second_week_table :: dataframe where
  "second_week_table =
     \<lparr>index_len = 2,
      cols =
        [(''Award ID'', [Str ''140D0423C0001'', Str ''F23AP00001'']),
         (''Action Date'', [Str ''2023-10-02'', Str ''2023-10-09'']),
         (''Transaction Amount'', [Num 100, Num 50]),
         (''Award Type'', [Str ''A'', Str ''02'']),
         (''Amount'', [Str ''$0.00'', Str ''$0.00''])]\<rparr>"

section \<open>Properties of the date range splitter\<close>

text \<open>
  Claim C6. Splitting 2023-10-01 to 2023-10-14 yields the two ranges
  (2023-10-01, 2023-10-07) and (2023-10-08, 2023-10-14), in that order, and the generator
  ends without an exception.
\<close>

theorem get_week_ranges_two_weeks:
  "get_week_ranges ''2023-10-01'' ''2023-10-14''
     = ([(''2023-10-01'', ''2023-10-07''), (''2023-10-08'', ''2023-10-14'')], None)"
  by code_simp

text \<open>
  Claim C1 says that the ranges cover every day from start to end. The loop runs while
  \<^verbatim>\<open>current < end\<close>, although both ends of a range are days of the range: when the day
  after a full week is \<^verbatim>\<open>end\<close> itself, the range (end, end) is never yielded. From
  2023-10-01 to 2023-10-08 only the first week comes out and 2023-10-08 is in no range;
  from a day to the same day nothing comes out.
\<close>

theorem get_week_ranges_drops_last_day:
  "get_week_ranges ''2023-10-01'' ''2023-10-08'' = ([(''2023-10-01'', ''2023-10-07'')], None)
   \<and> get_week_ranges ''2023-10-01'' ''2023-10-01'' = ([], None)"
  by code_simp

text \<open>
  Claim C10. For two well-formed dates with start after end, the generator yields
  nothing and ends without an exception.
\<close>

theorem get_week_ranges_reversed:
  assumes "strptime start_date = Inr start" and "strptime end_date = Inr endd"
      and "endd < start"
  shows "get_week_ranges start_date end_date = ([], None)"
  using assms by (simp add: get_week_ranges_def)

theorem get_week_ranges_reversed_witness:
  "get_week_ranges ''2023-10-14'' ''2023-10-01'' = ([], None)"
proof -
  have s: "strptime ''2023-10-14'' = Inr 738807" by code_simp
  have e: "strptime ''2023-10-01'' = Inr 738794" by code_simp
  show ?thesis by (rule get_week_ranges_reversed [OF s e]) simp
qed

section \<open>Properties of the result aggregator\<close>

text \<open>
  Claim C8. On the empty list of records both \<^verbatim>\<open>process_results\<close> return, without an
  exception, the empty table: it has no row and no column, so none of the derived
  columns.
\<close>

theorem process_results_empty:
  "process_results lib [] = Inr empty_frame
   \<and> process_results_ees lib [] = Inr empty_frame
   \<and> index_len empty_frame = 0
   \<and> df_columns empty_frame = []
   \<and> df_empty empty_frame"
  by (simp add: process_results_def process_results_ees_def empty_frame_def df_columns_def
        df_empty_def)

text \<open>
  Claim C9. Each of the fourteen award type codes of the request filter is a key of
  \<^verbatim>\<open>award_type_map\<close>, and its value is one of the five categories.
\<close>

theorem award_type_map_total:
  "\<forall>code \<in> set (filters_award_type_codes (award_history_payload start_date end_date)).
     \<exists>category \<in> set award_categories. map_of award_type_map code = Some category"
  by (simp add: award_history_payload_def award_type_map_def award_categories_def)

theorem award_type_map_total_witness:
  "length (filters_award_type_codes (award_history_payload ''2023-10-01'' ''2023-10-07'')) = 14
   \<and> ''A'' \<in> set (filters_award_type_codes (award_history_payload ''2023-10-01'' ''2023-10-07''))
   \<and> (\<exists>category \<in> set award_categories. map_of award_type_map ''A'' = Some category)"
proof -
  have m: "''A'' \<in> set (filters_award_type_codes
                          (award_history_payload ''2023-10-01'' ''2023-10-07''))"
    by (simp add: award_history_payload_def)
  have n: "length (filters_award_type_codes
                     (award_history_payload ''2023-10-01'' ''2023-10-07'')) = 14"
    by (simp add: award_history_payload_def)
  from award_type_map_total [of "''2023-10-01''" "''2023-10-07''"] m
  have "\<exists>category \<in> set award_categories. map_of award_type_map ''A'' = Some category"
    by (rule bspec)
  with m n show ?thesis by blast
qed

section \<open>Properties of the paginated fetcher\<close>

lemma award_loop_payload_page:
  "fetch_award_history_loop upstream (pl\<lparr>page := x\<rparr>) pg acc rq
     = fetch_award_history_loop upstream pl pg acc rq"
  by (subst fetch_award_history_loop.simps, subst (2) fetch_award_history_loop.simps) simp

lemma award_loop_full_step:
  assumes "upstream (pl\<lparr>page := pg\<rparr>) = Response 200 (Results rs)"
      and "rs \<noteq> []" and "limit pl \<le> length rs"
  shows "fetch_award_history_loop upstream pl pg acc rq
           = fetch_award_history_loop upstream pl (Suc pg) (acc @ rs) (rq @ [pg])"
  using assms
  by (subst fetch_award_history_loop.simps) (simp add: award_loop_payload_page)

lemma award_loop_full_pages:
  assumes "\<And>q. a \<le> page q \<Longrightarrow> page q < b
                \<Longrightarrow> upstream q = Response 200 (Results (pages (page q)))"
      and "\<And>p. a \<le> p \<Longrightarrow> p < b \<Longrightarrow> pages p \<noteq> [] \<and> limit pl \<le> length (pages p)"
      and "a \<le> b"
  shows "fetch_award_history_loop upstream pl a acc rq
           = fetch_award_history_loop upstream pl b
               (acc @ concat (map pages [a..<b])) (rq @ [a..<b])"
  using assms
proof (induction b)
  case 0
  then show ?case by simp
next
  case (Suc b)
  show ?case
  proof (cases "a = Suc b")
    case True
    then show ?thesis by simp
  next
    case False
    with Suc.prems have ab: "a \<le> b" by simp
    have "fetch_award_history_loop upstream pl a acc rq
            = fetch_award_history_loop upstream pl b
                (acc @ concat (map pages [a..<b])) (rq @ [a..<b])"
      using Suc.prems ab by (intro Suc.IH) auto
    also have "\<dots> = fetch_award_history_loop upstream pl (Suc b)
                       ((acc @ concat (map pages [a..<b])) @ pages b) ((rq @ [a..<b]) @ [b])"
      using Suc.prems ab by (intro award_loop_full_step) auto
    finally show ?thesis using ab by simp
  qed
qed

lemma award_loop_short_page:
  assumes "upstream (pl\<lparr>page := pg\<rparr>) = Response 200 (Results rs)"
      and "rs \<noteq> []" and "length rs < limit pl"
  shows "fetch_award_history_loop upstream pl pg acc rq = Some (Inr (acc @ rs), rq @ [pg])"
  using assms by (subst fetch_award_history_loop.simps) simp

lemma award_loop_empty_page:
  assumes "upstream (pl\<lparr>page := pg\<rparr>) = Response 200 (Results [])"
  shows "fetch_award_history_loop upstream pl pg acc rq = Some (Inr acc, rq @ [pg])"
  using assms by (subst fetch_award_history_loop.simps) simp

lemma award_loop_failed_page:
  assumes "failed (upstream (pl\<lparr>page := pg\<rparr>))"
  shows "fetch_award_history_loop upstream pl pg acc rq = Some (Inr acc, rq @ [pg])"
  using assms
  by (subst fetch_award_history_loop.simps) (simp add: failed_def split: response.splits)

lemma personnel_loop_payload_page:
  "fetch_personnel_spending_loop upstream (pl\<lparr>page := x\<rparr>) pg acc rq
     = fetch_personnel_spending_loop upstream pl pg acc rq"
  by (subst fetch_personnel_spending_loop.simps, subst (2) fetch_personnel_spending_loop.simps)
     simp

lemma personnel_loop_full_step:
  assumes "upstream (pl\<lparr>page := pg\<rparr>) = Response 200 (Results rs)"
      and "rs \<noteq> []" and "limit pl \<le> length rs"
  shows "fetch_personnel_spending_loop upstream pl pg acc rq
           = fetch_personnel_spending_loop upstream pl (Suc pg) (acc @ rs) (rq @ [pg])"
  using assms
  by (subst fetch_personnel_spending_loop.simps) (simp add: personnel_loop_payload_page)

lemma personnel_loop_full_pages:
  assumes "\<And>q. a \<le> page q \<Longrightarrow> page q < b
                \<Longrightarrow> upstream q = Response 200 (Results (pages (page q)))"
      and "\<And>p. a \<le> p \<Longrightarrow> p < b \<Longrightarrow> pages p \<noteq> [] \<and> limit pl \<le> length (pages p)"
      and "a \<le> b"
  shows "fetch_personnel_spending_loop upstream pl a acc rq
           = fetch_personnel_spending_loop upstream pl b
               (acc @ concat (map pages [a..<b])) (rq @ [a..<b])"
  using assms
proof (induction b)
  case 0
  then show ?case by simp
next
  case (Suc b)
  show ?case
  proof (cases "a = Suc b")
    case True
    then show ?thesis by simp
  next
    case False
    with Suc.prems have ab: "a \<le> b" by simp
    have "fetch_personnel_spending_loop upstream pl a acc rq
            = fetch_personnel_spending_loop upstream pl b
                (acc @ concat (map pages [a..<b])) (rq @ [a..<b])"
      using Suc.prems ab by (intro Suc.IH) auto
    also have "\<dots> = fetch_personnel_spending_loop upstream pl (Suc b)
                       ((acc @ concat (map pages [a..<b])) @ pages b) ((rq @ [a..<b]) @ [b])"
      using Suc.prems ab by (intro personnel_loop_full_step) auto
    finally show ?thesis using ab by simp
  qed
qed

lemma personnel_loop_short_page:
  assumes "upstream (pl\<lparr>page := pg\<rparr>) = Response 200 (Results rs)"
      and "rs \<noteq> []" and "length rs < limit pl"
  shows "fetch_personnel_spending_loop upstream pl pg acc rq
           = Some (Inr (acc @ rs), rq @ [pg])"
  using assms by (subst fetch_personnel_spending_loop.simps) simp

lemma personnel_loop_empty_page:
  assumes "upstream (pl\<lparr>page := pg\<rparr>) = Response 200 (Results [])"
  shows "fetch_personnel_spending_loop upstream pl pg acc rq = Some (Inr acc, rq @ [pg])"
  using assms by (subst fetch_personnel_spending_loop.simps) simp

lemma personnel_loop_failed_page:
  assumes "failed (upstream (pl\<lparr>page := pg\<rparr>))"
  shows "fetch_personnel_spending_loop upstream pl pg acc rq = Some (Inr acc, rq @ [pg])"
  using assms
  by (subst fetch_personnel_spending_loop.simps) (simp add: failed_def split: response.splits)

lemma limit_award_history_payload [simp]: "limit (award_history_payload s e) = 100"
  by (simp add: award_history_payload_def)

lemma limit_personnel_spending_payload [simp]: "limit (personnel_spending_payload s e) = 100"
  by (simp add: personnel_spending_payload_def)

lemma length_concat_full_pages:
  assumes "\<And>p. a \<le> p \<Longrightarrow> p < b \<Longrightarrow> length (pages p) = k"
  shows "length (concat (map pages [a..<b])) = k * (b - a)"
  using assms
proof (induction b)
  case 0
  then show ?case by simp
next
  case (Suc b)
  show ?case
  proof (cases "a \<le> b")
    case True
    then have "length (concat (map pages [a..<Suc b]))
                 = length (concat (map pages [a..<b])) + length (pages b)"
      by simp
    also have "\<dots> = k * (b - a) + k"
      using Suc True by simp
    also have "\<dots> = k * (Suc b - a)"
      using True by (simp add: Suc_diff_le)
    finally show ?thesis .
  next
    case False
    then show ?thesis by simp
  qed
qed

text \<open>
  Claim C2. When the upstream answers the pages 1 to \<open>N\<close> with 100 records each and
  page \<open>N + 1\<close> with \<open>K\<close> records, \<open>0 < K < 100\<close>, both fetchers return the pages
  concatenated, \<open>100 * N + K\<close> records, and the pages posted are 1 to \<open>N + 1\<close>: page
  \<open>N + 2\<close> is never posted.
\<close>

theorem fetch_full_pages_then_short_page:
  assumes full: "\<And>q. 1 \<le> page q \<Longrightarrow> page q \<le> N
                   \<Longrightarrow> upstream q = Response 200 (Results (pages (page q)))"
      and size: "\<And>p. 1 \<le> p \<Longrightarrow> p \<le> N \<Longrightarrow> length (pages p) = 100"
      and last: "\<And>q. page q = N + 1 \<Longrightarrow> upstream q = Response 200 (Results last_page)"
      and K: "0 < length last_page" "length last_page < 100"
  shows "fetch_award_history upstream start_date end_date
           = Some (Inr (concat (map pages [1..<N + 1]) @ last_page), [1..<N + 2])
         \<and> fetch_personnel_spending upstream start_date end_date
           = Some (Inr (concat (map pages [1..<N + 1]) @ last_page), [1..<N + 2])
         \<and> length (concat (map pages [1..<N + 1]) @ last_page) = 100 * N + length last_page
         \<and> N + 2 \<notin> set [1..<N + 2]"
proof -
  have f: "\<And>q. 1 \<le> page q \<Longrightarrow> page q < N + 1
               \<Longrightarrow> upstream q = Response 200 (Results (pages (page q)))"
    using full by simp
  have s: "\<And>p. 1 \<le> p \<Longrightarrow> p < N + 1 \<Longrightarrow> pages p \<noteq> [] \<and> 100 \<le> length (pages p)"
    using size by fastforce
  have l: "\<And>pl. upstream (pl\<lparr>page := Suc N\<rparr>) = Response 200 (Results last_page)"
    using last by simp
  have ne: "last_page \<noteq> []" using K by auto
  have "fetch_award_history upstream start_date end_date
          = fetch_award_history_loop upstream (award_history_payload start_date end_date)
              (N + 1) ([] @ concat (map pages [1..<N + 1])) ([] @ [1..<N + 1])"
    unfolding fetch_award_history_def
    by (rule award_loop_full_pages [where pages = pages]) (simp_all add: f s)
  also have "\<dots> = Some (Inr (([] @ concat (map pages [1..<N + 1])) @ last_page),
                       ([] @ [1..<N + 1]) @ [N + 1])"
    by (rule award_loop_short_page) (simp_all add: l ne K)
  finally have a: "fetch_award_history upstream start_date end_date
          = Some (Inr (concat (map pages [1..<N + 1]) @ last_page), [1..<N + 2])"
    by simp
  have "fetch_personnel_spending upstream start_date end_date
          = fetch_personnel_spending_loop upstream
              (personnel_spending_payload start_date end_date)
              (N + 1) ([] @ concat (map pages [1..<N + 1])) ([] @ [1..<N + 1])"
    unfolding fetch_personnel_spending_def
    by (rule personnel_loop_full_pages [where pages = pages]) (simp_all add: f s)
  also have "\<dots> = Some (Inr (([] @ concat (map pages [1..<N + 1])) @ last_page),
                       ([] @ [1..<N + 1]) @ [N + 1])"
    by (rule personnel_loop_short_page) (simp_all add: l ne K)
  finally have b: "fetch_personnel_spending upstream start_date end_date
          = Some (Inr (concat (map pages [1..<N + 1]) @ last_page), [1..<N + 2])"
    by simp
  have "length (concat (map pages [1..<N + 1])) = 100 * (N + 1 - 1)"
    by (rule length_concat_full_pages) (simp add: size)
  then have c: "length (concat (map pages [1..<N + 1]) @ last_page) = 100 * N + length last_page"
    by simp
  from a b c show ?thesis by simp
qed

theorem fetch_full_pages_then_short_page_witness:
  "fetch_award_history short_feed ''2023-10-01'' ''2023-10-07''
     = Some (Inr (replicate 100 sample_record @ replicate 3 grant_record), [1, 2])
   \<and> fetch_personnel_spending short_feed ''2023-10-01'' ''2023-10-07''
     = Some (Inr (replicate 100 sample_record @ replicate 3 grant_record), [1, 2])
   \<and> length (replicate 100 sample_record @ replicate 3 grant_record) = 103"
proof -
  have up: "[1..<3] = [1, 2::nat]" by (simp add: upt_rec)
  have "fetch_award_history short_feed ''2023-10-01'' ''2023-10-07''
          = Some (Inr (concat (map (\<lambda>p. replicate 100 sample_record) [1..<1 + 1])
                         @ replicate 3 grant_record), [1..<1 + 2])
        \<and> fetch_personnel_spending short_feed ''2023-10-01'' ''2023-10-07''
          = Some (Inr (concat (map (\<lambda>p. replicate 100 sample_record) [1..<1 + 1])
                         @ replicate 3 grant_record), [1..<1 + 2])
        \<and> length (concat (map (\<lambda>p. replicate 100 sample_record) [1..<1 + 1])
                    @ replicate 3 grant_record) = 100 * 1 + length (replicate 3 grant_record)
        \<and> 1 + 2 \<notin> set [1..<1 + (2::nat)]"
    by (rule fetch_full_pages_then_short_page) (simp_all add: short_feed_def)
  then show ?thesis by (simp add: up)
qed


text \<open>
  Claim C3. When the pages before page \<open>n\<close> are full and the request for page \<open>n\<close>
  raises \<^verbatim>\<open>RequestException\<close> or comes back with a status other than 200 (every status
  that is not a success is such a status), both fetchers return, as a value and not as
  an exception, the records of the pages 1 to \<open>n - 1\<close>; page \<open>n\<close> is posted once and
  nothing after it. A page counts as full with 100 records or more, as in the source.
\<close>

theorem fetch_stops_at_failed_page:
  assumes full: "\<And>q. 1 \<le> page q \<Longrightarrow> page q < n
                   \<Longrightarrow> upstream q = Response 200 (Results (pages (page q)))"
      and size: "\<And>p. 1 \<le> p \<Longrightarrow> p < n \<Longrightarrow> 100 \<le> length (pages p)"
      and n: "1 \<le> n"
      and fail: "\<And>q. page q = n \<Longrightarrow> failed (upstream q)"
  shows "fetch_award_history upstream start_date end_date
           = Some (Inr (concat (map pages [1..<n])), [1..<n + 1])
         \<and> fetch_personnel_spending upstream start_date end_date
           = Some (Inr (concat (map pages [1..<n])), [1..<n + 1])"
proof -
  have s: "\<And>p. 1 \<le> p \<Longrightarrow> p < n \<Longrightarrow> pages p \<noteq> [] \<and> 100 \<le> length (pages p)"
    using size by fastforce
  have f: "\<And>pl. failed (upstream (pl\<lparr>page := n\<rparr>))"
    using fail by simp
  have up: "[1..<n] @ [n] = [1..<n + 1]"
    using n by simp
  have "fetch_award_history upstream start_date end_date
          = fetch_award_history_loop upstream (award_history_payload start_date end_date)
              n ([] @ concat (map pages [1..<n])) ([] @ [1..<n])"
    unfolding fetch_award_history_def
    using n by (intro award_loop_full_pages [where pages = pages]) (simp_all add: full s)
  also have "\<dots> = Some (Inr ([] @ concat (map pages [1..<n])), ([] @ [1..<n]) @ [n])"
    by (rule award_loop_failed_page) (rule f)
  finally have a: "fetch_award_history upstream start_date end_date
                     = Some (Inr (concat (map pages [1..<n])), [1..<n + 1])"
    using up by simp
  have "fetch_personnel_spending upstream start_date end_date
          = fetch_personnel_spending_loop upstream
              (personnel_spending_payload start_date end_date)
              n ([] @ concat (map pages [1..<n])) ([] @ [1..<n])"
    unfolding fetch_personnel_spending_def
    using n by (intro personnel_loop_full_pages [where pages = pages]) (simp_all add: full s)
  also have "\<dots> = Some (Inr ([] @ concat (map pages [1..<n])), ([] @ [1..<n]) @ [n])"
    by (rule personnel_loop_failed_page) (rule f)
  finally have b: "fetch_personnel_spending upstream start_date end_date
                     = Some (Inr (concat (map pages [1..<n])), [1..<n + 1])"
    using up by simp
  from a b show ?thesis by simp
qed

theorem fetch_stops_at_failed_page_witness:
  "fetch_award_history broken_feed ''2023-10-01'' ''2023-10-07''
     = Some (Inr (replicate 100 sample_record), [1, 2])
   \<and> fetch_personnel_spending broken_feed ''2023-10-01'' ''2023-10-07''
     = Some (Inr (replicate 100 sample_record), [1, 2])"
proof -
  have up: "[Suc 0..<2] = [Suc 0]" "[Suc 0..<3] = [Suc 0, 2]" by (simp_all add: upt_rec)
  have "fetch_award_history broken_feed ''2023-10-01'' ''2023-10-07''
          = Some (Inr (concat (map (\<lambda>p. replicate 100 sample_record) [1..<2])), [1..<2 + 1])
        \<and> fetch_personnel_spending broken_feed ''2023-10-01'' ''2023-10-07''
          = Some (Inr (concat (map (\<lambda>p. replicate 100 sample_record) [1..<2])), [1..<2 + 1])"
    by (rule fetch_stops_at_failed_page) (simp_all add: broken_feed_def failed_def)
  then show ?thesis by (simp add: up)
qed

text \<open>
  Claim C7. When the upstream answers page 1 with an empty list of results, both fetchers
  return the empty list as a value, not as an exception, and post page 1 only.
\<close>

theorem fetch_empty_first_page:
  assumes "\<And>q. page q = 1 \<Longrightarrow> upstream q = Response 200 (Results [])"
  shows "fetch_award_history upstream start_date end_date = Some (Inr [], [1])
         \<and> fetch_personnel_spending upstream start_date end_date = Some (Inr [], [1])"
proof -
  have e: "\<And>pl. upstream (pl\<lparr>page := 1\<rparr>) = Response 200 (Results [])"
    using assms by simp
  have "fetch_award_history upstream start_date end_date = Some (Inr [], [] @ [1])"
    unfolding fetch_award_history_def by (rule award_loop_empty_page) (rule e)
  moreover
  have "fetch_personnel_spending upstream start_date end_date = Some (Inr [], [] @ [1])"
    unfolding fetch_personnel_spending_def by (rule personnel_loop_empty_page) (rule e)
  ultimately show ?thesis by simp
qed

theorem fetch_empty_first_page_witness:
  "fetch_award_history empty_feed ''2023-10-01'' ''2023-10-07'' = Some (Inr [], [1])
   \<and> fetch_personnel_spending empty_feed ''2023-10-01'' ''2024-09-30'' = Some (Inr [], [1])"
proof -
  have a: "fetch_award_history empty_feed ''2023-10-01'' ''2023-10-07'' = Some (Inr [], [1])"
    using fetch_empty_first_page [of empty_feed] by (simp add: empty_feed_def)
  have b: "fetch_personnel_spending empty_feed ''2023-10-01'' ''2024-09-30'' = Some (Inr [], [1])"
    using fetch_empty_first_page [of empty_feed] by (simp add: empty_feed_def)
  from a b show ?thesis by simp
qed

section \<open>Properties of the aggregation by award category\<close>

lemma map_of_replace_same:
  "c \<in> fst ` set xs
     \<Longrightarrow> map_of (map (\<lambda>(k, v). if k = c then (k, vals) else (k, v)) xs) c = Some vals"
  by (induction xs) auto

lemma map_of_replace_other:
  "c' \<noteq> c
     \<Longrightarrow> map_of (map (\<lambda>(k, v). if k = c then (k, vals) else (k, v)) xs) c' = map_of xs c'"
  by (induction xs) auto

lemma get_col_set_col_same: "get_col (set_col df c vals) c = Inr vals"
proof (cases "c \<in> fst ` set (cols df)")
  case True
  then show ?thesis
    by (simp add: get_col_def set_col_def df_columns_def map_of_replace_same)
next
  case False
  then have "map_of (cols df) c = None"
    by (simp add: map_of_eq_None_iff)
  with False show ?thesis
    by (simp add: get_col_def set_col_def df_columns_def map_add_def)
qed

lemma get_col_set_col_other:
  assumes "c' \<noteq> c"
  shows "get_col (set_col df c vals) c' = get_col df c'"
  using assms
  by (auto simp: get_col_def set_col_def df_columns_def map_of_replace_other map_add_def
        split: option.splits)

lemma groupby_contract_and_grant:
  "groupby_sum_count (map (series_map award_type_map) [Str ''A'', Str ''02''])
     [Num 100, Num 50]
     = Inr [(''Contracts'', 100, 1), (''Grants'', 50, 1)]"
  by code_simp

text \<open>
  Claim C5. For a table whose award types are \<^verbatim>\<open>A\<close> and \<^verbatim>\<open>02\<close> with the amounts 100 and
  50, \<^verbatim>\<open>A\<close> is mapped to Contracts and \<^verbatim>\<open>02\<close> to Grants, and the summary has the rows
  Contracts with sum 100 and count 1 and Grants with sum 50 and count 1, in that order.
\<close>

theorem category_summary_contract_and_grant:
  assumes "get_col final_df ''Award Type'' = Inr [Str ''A'', Str ''02'']"
      and "get_col final_df ''Transaction Amount'' = Inr [Num 100, Num 50]"
  shows "series_map award_type_map (Str ''A'') = Str ''Contracts''
         \<and> series_map award_type_map (Str ''02'') = Str ''Grants''
         \<and> category_summary final_df = Inr [(''Contracts'', 100, 1), (''Grants'', 50, 1)]"
proof -
  have a: "series_map award_type_map (Str ''A'') = Str ''Contracts''"
    by (simp add: award_type_map_def)
  have b: "series_map award_type_map (Str ''02'') = Str ''Grants''"
    by (simp add: award_type_map_def)
  have ne: "''Transaction Amount'' \<noteq> ''Award Category''" by simp
  have "category_summary final_df
          = groupby_sum_count (map (series_map award_type_map) [Str ''A'', Str ''02''])
              [Num 100, Num 50]"
    unfolding category_summary_def
    by (simp only: assms sum.case Let_def get_col_set_col_same
          get_col_set_col_other [OF ne])
  with a b show ?thesis
    by (simp only: groupby_contract_and_grant simp_thms)
qed

theorem category_summary_contract_and_grant_witness:
  "category_summary (DataFrame [sample_record, grant_record])
     = Inr [(''Contracts'', 100, 1), (''Grants'', 50, 1)]"
proof -
  have t: "get_col (DataFrame [sample_record, grant_record]) ''Award Type''
             = Inr [Str ''A'', Str ''02'']"
    by code_simp
  have m: "get_col (DataFrame [sample_record, grant_record]) ''Transaction Amount''
             = Inr [Num 100, Num 50]"
    by code_simp
  from category_summary_contract_and_grant [OF t m] show ?thesis by simp
qed

section \<open>Properties of the output writer\<close>

lemma first_seen_Nil: "first_seen seen xs = [] \<longleftrightarrow> seen = [] \<and> xs = []"
proof (induction xs arbitrary: seen)
  case Nil
  show ?case by simp
next
  case (Cons x xs)
  have ne: "(if x \<in> set seen then seen else seen @ [x]) \<noteq> []"
    by (cases "x \<in> set seen") auto
  have "first_seen seen (x # xs) = first_seen (if x \<in> set seen then seen else seen @ [x]) xs"
    by (rule first_seen.simps)
  also have "\<dots> \<noteq> []"
    unfolding Cons.IH using ne by blast
  finally show ?case by simp
qed

lemma cols_DataFrame_Nil: "cols (DataFrame data) = [] \<longleftrightarrow> (\<forall>r \<in> set data. r = [])"
  by (auto simp: DataFrame_def Let_def first_seen_Nil)

lemma index_len_set_col [simp]: "index_len (set_col df c vals) = index_len df"
  by (simp add: set_col_def)

lemma cols_set_col_Nil: "cols (set_col df c vals) \<noteq> []"
  by (auto simp: set_col_def df_columns_def)

lemma convert_action_date_shape:
  assumes "convert_action_date lib df = Inr df'"
  shows "index_len df' = index_len df \<and> (cols df' = [] \<longleftrightarrow> cols df = [])"
proof (cases "''Action Date'' \<in> set (df_columns df)")
  case False
  with assms have "df' = df"
    by (simp only: convert_action_date_def if_False sum.inject)
  then show ?thesis by simp
next
  case True
  then have ne: "cols df \<noteq> []"
    unfolding df_columns_def by (cases "cols df") simp_all
  from assms have "\<exists>parsed. df' = set_col df ''Action Date'' parsed"
    unfolding convert_action_date_def
    by (auto simp only: True if_True split: sum.splits)
  then obtain parsed where df': "df' = set_col df ''Action Date'' parsed" ..
  show ?thesis
    unfolding df' using ne by (simp only: index_len_set_col cols_set_col_Nil simp_thms)
qed

lemma convert_amount_shape:
  assumes "convert_amount lib label df = Inr df'"
  shows "index_len df' = index_len df \<and> (cols df' = [] \<longleftrightarrow> cols df = [])"
proof (cases "''Transaction Amount'' \<in> set (df_columns df)")
  case False
  with assms have "df' = df"
    by (simp only: convert_amount_def if_False sum.inject)
  then show ?thesis by simp
next
  case True
  then have ne: "cols df \<noteq> []"
    unfolding df_columns_def by (cases "cols df") simp_all
  from assms have "\<exists>numbers labels.
      df' = set_col (set_col df ''Transaction Amount'' numbers) label labels"
    unfolding convert_amount_def
    by (auto simp only: True if_True Let_def split: sum.splits)
  then obtain numbers labels where
    df': "df' = set_col (set_col df ''Transaction Amount'' numbers) label labels"
    by blast
  show ?thesis
    unfolding df' using ne by (simp only: index_len_set_col cols_set_col_Nil simp_thms)
qed

lemma process_results_empty_iff:
  assumes "process_results lib data = Inr df" and "data \<noteq> []"
  shows "df_empty df \<longleftrightarrow> \<not> list_ex (\<lambda>r. r \<noteq> []) data"
proof -
  from assms have "\<exists>df1. convert_action_date lib (DataFrame data) = Inr df1
                        \<and> convert_amount lib ''Amount'' df1 = Inr df"
    unfolding process_results_def by (auto simp only: if_False split: sum.splits)
  then obtain df1 where
    1: "convert_action_date lib (DataFrame data) = Inr df1" and
    2: "convert_amount lib ''Amount'' df1 = Inr df"
    by blast
  note s1 = convert_action_date_shape [OF 1] and s2 = convert_amount_shape [OF 2]
  have "index_len df = index_len df1"
    using s2 by (rule conjunct1)
  also have "\<dots> = index_len (DataFrame data)"
    using s1 by (rule conjunct1)
  also have "\<dots> = length data"
    by (simp add: DataFrame_def Let_def)
  finally have len: "index_len df \<noteq> 0"
    using assms(2) by simp
  have "(cols df = []) = (cols df1 = [])"
    using s2 by (rule conjunct2)
  also have "\<dots> = (cols (DataFrame data) = [])"
    using s1 by (rule conjunct2)
  also have "\<dots> = (\<forall>r \<in> set data. r = [])"
    by (rule cols_DataFrame_Nil)
  also have "\<dots> = (\<not> list_ex (\<lambda>r. r \<noteq> []) data)"
    by (simp add: list_ex_iff)
  finally have "(cols df = []) = (\<not> list_ex (\<lambda>r. r \<noteq> []) data)" .
  with len show ?thesis
    by (simp add: df_empty_def)
qed

lemma main_loop_files:
  assumes "main_loop upstream lib chunks all_data written = Some (None, all_data', written')"
  shows "\<exists>new. written' = written @ new \<and> all_data' = all_data @ map snd new
               \<and> list_all2 (is_chunk_file upstream lib) new
                    (filter (chunk_has_table upstream) chunks)"
  using assms
proof (induction chunks arbitrary: all_data written)
  case Nil
  then show ?case by simp
next
  case (Cons chunk chunks)
  obtain week_num week_start week_end where chunk: "chunk = (week_num, week_start, week_end)"
    by (cases chunk) auto
  from Cons.prems obtain data requested where
    fetched: "fetch_award_history upstream week_start week_end = Some (Inr data, requested)"
    by (auto simp: chunk split: option.splits sum.splits)
  show ?case
  proof (cases "data = []")
    case True
    with fetched have "\<not> chunk_has_table upstream chunk"
      by (simp add: chunk_has_table_def chunk)
    moreover from Cons.prems fetched True
    have "main_loop upstream lib chunks all_data written = Some (None, all_data', written')"
      by (simp add: chunk)
    ultimately show ?thesis using Cons.IH by simp
  next
    case False
    with Cons.prems fetched obtain df where df: "process_results lib data = Inr df"
      by (auto simp: chunk split: sum.splits)
    note e = process_results_empty_iff [OF df False]
    show ?thesis
    proof (cases "df_empty df")
      case True
      with e fetched have "\<not> chunk_has_table upstream chunk"
        by (simp add: chunk_has_table_def chunk)
      moreover from Cons.prems fetched False df True
      have "main_loop upstream lib chunks all_data written = Some (None, all_data', written')"
        by (simp add: chunk)
      ultimately show ?thesis using Cons.IH by simp
    next
      case nonempty: False
      with e fetched have has: "chunk_has_table upstream chunk"
        by (simp add: chunk_has_table_def chunk)
      from fetched df have cf: "is_chunk_file upstream lib (week_filename week_num, df) chunk"
        by (simp add: is_chunk_file_def chunk)
      from Cons.prems fetched False df nonempty
      have "main_loop upstream lib chunks (all_data @ [df])
              (written @ [(week_filename week_num, df)]) = Some (None, all_data', written')"
        by (simp add: chunk)
      from Cons.IH [OF this] obtain new where
        w: "written' = (written @ [(week_filename week_num, df)]) @ new" and
        a: "all_data' = (all_data @ [df]) @ map snd new" and
        l: "list_all2 (is_chunk_file upstream lib) new (filter (chunk_has_table upstream) chunks)"
        by blast
      have "written' = written @ ((week_filename week_num, df) # new)"
        using w by simp
      moreover have "all_data' = all_data @ map snd ((week_filename week_num, df) # new)"
        using a by simp
      moreover have "list_all2 (is_chunk_file upstream lib) ((week_filename week_num, df) # new)
                       (filter (chunk_has_table upstream) (chunk # chunks))"
        using has cf l by simp
      ultimately show ?thesis by blast
    qed
  qed
qed

lemma week_filename_not_total: "week_filename week_num \<noteq> total_filename"
  by (simp add: week_filename_def total_filename_def path_join_def)

lemma is_chunk_file_name:
  assumes "is_chunk_file upstream lib file chunk"
  shows "fst file = (case chunk of (week_num, week_start, week_end) \<Rightarrow> week_filename week_num)"
  using assms
  by (cases chunk) (auto simp: is_chunk_file_def split: option.splits sum.splits)

lemma chunk_files_names:
  assumes "list_all2 (is_chunk_file upstream lib) w cs"
  shows "map fst w = map (\<lambda>(week_num, week_start, week_end). week_filename week_num) cs"
  using assms
  by (induction rule: list_all2_induct) (simp_all add: is_chunk_file_name)

lemma chunk_files_not_total:
  assumes "list_all2 (is_chunk_file upstream lib) w cs"
  shows "filter (\<lambda>file. fst file \<noteq> total_filename) w = w"
  using assms
proof (induction rule: list_all2_induct)
  case Nil
  show ?case by simp
next
  case (Cons f w chunk cs)
  from Cons.hyps(1) have "fst f \<noteq> total_filename"
    by (cases chunk) (simp add: is_chunk_file_name week_filename_not_total)
  with Cons.IH show ?case by simp
qed

text \<open>
  Claim C4 says that a file is written for every chunk, whether or not its fetch returned
  records. The source writes the file of a chunk under \<^verbatim>\<open>if data:\<close> and
  \<^verbatim>\<open>if not df.empty:\<close>, and the combined file under \<^verbatim>\<open>if all_data:\<close>. What holds instead:
  in a run that ends without an exception, the files written are, in order, one file for
  each chunk that has a table, named with the number of the chunk and holding the table
  made from the records fetched for it, and after them, when there is such a chunk, the
  combined file, which holds the concatenation of the tables of all the files of chunks,
  so it covers the whole run. The files of chunks are as many as the chunks with a table,
  no more than the chunks.
\<close>

theorem main_writes_files_for_chunks_with_records:
  assumes "main upstream lib = Some (None, written)"
  shows "written = week_files written
                     @ (if chunks_with_table upstream = [] then []
                        else [(total_filename, concat_frames (map snd (week_files written)))])
         \<and> list_all2 (is_chunk_file upstream lib) (week_files written)
              (chunks_with_table upstream)
         \<and> map fst written
             = map (\<lambda>(week_num, week_start, week_end). week_filename week_num)
                 (chunks_with_table upstream)
               @ (if chunks_with_table upstream = [] then [] else [total_filename])
         \<and> length (filter (\<lambda>name. name \<noteq> total_filename) (map fst written))
             = length (chunks_with_table upstream)
         \<and> length (chunks_with_table upstream) \<le> length fy2024_chunks"
proof -
  obtain ranges gerr where g: "get_week_ranges ''2023-10-01'' ''2024-09-30'' = (ranges, gerr)"
    by (cases "get_week_ranges ''2023-10-01'' ''2024-09-30''") auto
  from assms g have none: "gerr = None"
    by (auto simp: main_def split: option.splits)
  from assms g none obtain all_data w where
    loop: "main_loop upstream lib (enumerate 1 ranges) [] [] = Some (None, all_data, w)" and
    written: "written = (if all_data \<noteq> [] then w @ [(total_filename, concat_frames all_data)]
                         else w)"
    by (auto simp: main_def split: option.splits if_splits)
  have chunks: "chunks_with_table upstream = filter (chunk_has_table upstream) (enumerate 1 ranges)"
    by (simp add: chunks_with_table_def fy2024_chunks_def g)
  from main_loop_files [OF loop]
  have tables: "all_data = map snd w"
    and files: "list_all2 (is_chunk_file upstream lib) w (chunks_with_table upstream)"
    by (auto simp: chunks)
  note names = chunk_files_names [OF files]
  from files have len: "length w = length (chunks_with_table upstream)"
    by (rule list_all2_lengthD)
  then have empty: "w = [] \<longleftrightarrow> chunks_with_table upstream = []"
    by (metis length_0_conv)
  have wf: "week_files written = w"
    unfolding week_files_def written tables
    by (simp add: chunk_files_not_total [OF files])
  have 0: "written = week_files written
                     @ (if chunks_with_table upstream = [] then []
                        else [(total_filename, concat_frames (map snd (week_files written)))])"
    unfolding wf using empty by (simp add: written tables)
  have 1: "map fst written
             = map (\<lambda>(week_num, week_start, week_end). week_filename week_num)
                 (chunks_with_table upstream)
               @ (if chunks_with_table upstream = [] then [] else [total_filename])"
    using names empty by (simp add: written tables)
  have keep: "filter (\<lambda>name. name \<noteq> total_filename)
                (map (\<lambda>(week_num, week_start, week_end). week_filename week_num) cs)
              = map (\<lambda>(week_num, week_start, week_end). week_filename week_num) cs" for cs
    by (induction cs) (auto simp: week_filename_not_total)
  have 2: "length (filter (\<lambda>name. name \<noteq> total_filename) (map fst written))
             = length (chunks_with_table upstream)"
    unfolding 1 by (simp add: keep)
  have 3: "length (chunks_with_table upstream) \<le> length fy2024_chunks"
    by (simp add: chunks_with_table_def)
  from 0 files wf 1 2 3 show ?thesis by simp
qed

text \<open>
  Against claim C4 as stated: with records in the second week only, the run ends without
  an exception, there are 53 chunks, and the files written are the file of week 2 and the
  combined file.
\<close>

theorem main_second_week_only:
  "map_option fst (main second_week_feed plain_pandas) = Some None
   \<and> map_option (map fst \<circ> snd) (main second_week_feed plain_pandas)
       = Some [''output/fy2024/doi_awards_week_2.csv'',
               ''output/fy2024/doi_awards_fy2024_complete.csv'']
   \<and> length (fst (get_week_ranges ''2023-10-01'' ''2024-09-30'')) = 53"
  by code_simp

theorem main_writes_files_for_chunks_with_records_witness:
  "week_files [(''output/fy2024/doi_awards_week_2.csv'', second_week_table),
               (''output/fy2024/doi_awards_fy2024_complete.csv'', second_week_table)]
     = [(''output/fy2024/doi_awards_week_2.csv'', second_week_table)]
   \<and> concat_frames [second_week_table] = second_week_table
   \<and> list_all2 (is_chunk_file second_week_feed plain_pandas)
        [(''output/fy2024/doi_awards_week_2.csv'', second_week_table)]
        (chunks_with_table second_week_feed)
   \<and> map (\<lambda>(week_num, week_start, week_end). week_filename week_num)
        (chunks_with_table second_week_feed)
        @ (if chunks_with_table second_week_feed = [] then [] else [total_filename])
      = [''output/fy2024/doi_awards_week_2.csv'',
         ''output/fy2024/doi_awards_fy2024_complete.csv'']
   \<and> length (chunks_with_table second_week_feed) = 1"
proof -
  have run: "main second_week_feed plain_pandas
               = Some (None, [(''output/fy2024/doi_awards_week_2.csv'', second_week_table),
                              (''output/fy2024/doi_awards_fy2024_complete.csv'',
                               second_week_table)])"
    by code_simp
  have t: "total_filename = ''output/fy2024/doi_awards_fy2024_complete.csv''"
    by (simp add: total_filename_def path_join_def output_dir_def)
  have wf: "week_files [(''output/fy2024/doi_awards_week_2.csv'', second_week_table),
                        (''output/fy2024/doi_awards_fy2024_complete.csv'', second_week_table)]
              = [(''output/fy2024/doi_awards_week_2.csv'', second_week_table)]"
    by (simp add: week_files_def t)
  have c: "concat_frames [second_week_table] = second_week_table"
    by code_simp
  from main_writes_files_for_chunks_with_records [OF run]
  show ?thesis unfolding wf by (simp add: t c)
qed

end
